theory Spec2Isabelle
  imports Main "HOL-Library.Word" "HOL-Library.Char_ord" "HOL-Library.List_Lexorder"
begin

unbundle bit_operations_syntax

section \<open>JavaScript maps with insertion order\<close>

text \<open>
  A JavaScript \<open>Map\<close> keeps its entries in insertion order; \<open>set\<close> on a key that is
  already there replaces the value in place, \<open>set\<close> on a new key appends the entry.
  The model is an association list. \<open>get\<close> answers \<open>undefined\<close> for an absent key,
  which is \<open>None\<close> of \<open>map_of\<close>.
\<close>

type_synonym ('k, 'v) jsmap = "('k \<times> 'v) list"

fun Map_set :: "'k \<Rightarrow> 'v \<Rightarrow> ('k, 'v) jsmap \<Rightarrow> ('k, 'v) jsmap" where
  "Map_set k v [] = [(k, v)]"
| "Map_set k v (p # ps) = (if fst p = k then (k, v) # ps else p # Map_set k v ps)"

definition Map_get :: "('k, 'v) jsmap \<Rightarrow> 'k \<Rightarrow> 'v option" where
  "Map_get m k = map_of m k"

definition Map_has :: "('k, 'v) jsmap \<Rightarrow> 'k \<Rightarrow> bool" where
  "Map_has m k = (map_of m k \<noteq> None)"

definition Map_keys :: "('k, 'v) jsmap \<Rightarrow> 'k list" where
  "Map_keys m = map fst m"

definition Map_size :: "('k, 'v) jsmap \<Rightarrow> nat" where
  "Map_size m = length m"

section \<open>The vector clock (src/vector\_clock.ts)\<close>

text \<open>
  \<open>uid\<close> has the TypeScript type \<open>any\<close>: a type variable. The entries are, in the words
  of the class, "the number of lastest message" of each replica: counts, modelled as
  \<open>nat\<close>. Where the source subtracts (\<open>get(otherUid)! - 1\<close>) the subtraction is done on
  \<open>int\<close>, so that \<open>0 - 1\<close> is \<open>-1\<close> as in JavaScript and not \<open>0\<close>. JavaScript's numbers
  are doubles; a count is an exact integer there as long as it stays below \<open>2^53\<close>, and
  \<open>increment\<close>, which can push an entry past that, adds the way doubles do.
\<close>

record 'u VectorClock =
  uid :: 'u
  vectorMap :: "('u, nat) jsmap"

definition new_VectorClock :: "'u \<Rightarrow> 'u VectorClock" where
  "new_VectorClock replicaID = \<lparr>uid = replicaID, vectorMap = Map_set replicaID 0 []\<rparr>"

definition getUid :: "'u VectorClock \<Rightarrow> 'u" where
  "getUid this = uid this"

definition getVectorMap :: "'u VectorClock \<Rightarrow> ('u, nat) jsmap" where
  "getVectorMap this = vectorMap this"

definition getSize :: "'u VectorClock \<Rightarrow> nat" where
  "getSize this = Map_size (vectorMap this)"

text \<open>
  \<open>oldValue + 1\<close> is an addition of doubles. A double that holds a count below \<open>2^53\<close>
  holds every such count exactly, and the sum is the count plus one. From \<open>2^53\<close> to
  \<open>2^54\<close> the doubles are the even numbers: the sum lies half-way between two of them and
  is rounded to the one with the even significand, which is the old value itself or the
  old value plus two. From \<open>2^54\<close> on the doubles are at least four apart and the sum is
  rounded back to the old value.
\<close>

definition js_plus_one :: "nat \<Rightarrow> nat" where
  "js_plus_one oldValue =
     (if oldValue < 2 ^ 53 then oldValue + 1
      else if oldValue < 2 ^ 54 \<and> odd (oldValue div 2) then oldValue + 2
      else oldValue)"

definition increment :: "'u VectorClock \<Rightarrow> 'u VectorClock" where
  "increment this =
     (case Map_get (vectorMap this) (uid this) of
        None \<Rightarrow> this
      | Some oldValue \<Rightarrow>
          this\<lparr>vectorMap := Map_set (uid this) (js_plus_one oldValue) (vectorMap this)\<rparr>)"

text \<open>
  \<open>isready\<close> compares the result of \<open>Map.get\<close> with \<open>null\<close> and with a number, so the
  three kinds of value that can meet there are kept apart: \<open>Map.get\<close> answers a number or
  \<open>undefined\<close>, never \<open>null\<close>.
\<close>

datatype jsvalue = Undefined | Null | Number int

definition js_get :: "('u, nat) jsmap \<Rightarrow> 'u \<Rightarrow> jsvalue" where
  "js_get m k = (case Map_get m k of None \<Rightarrow> Undefined | Some v \<Rightarrow> Number (int v))"

text \<open>\<open>ToNumber\<close>: \<open>undefined\<close> is \<open>NaN\<close> (here \<open>None\<close>), \<open>null\<close> is \<open>0\<close>.\<close>

fun ToNumber :: "jsvalue \<Rightarrow> int option" where
  "ToNumber Undefined = None"
| "ToNumber Null = Some 0"
| "ToNumber (Number n) = Some n"

text \<open>\<open>a - 1\<close> on a value; the result is a number, \<open>NaN\<close> when \<open>a\<close> is \<open>undefined\<close>.\<close>

definition js_minus_one :: "jsvalue \<Rightarrow> int option" where
  "js_minus_one a = (case ToNumber a of None \<Rightarrow> None | Some n \<Rightarrow> Some (n - 1))"

text \<open>
  \<open>a === b\<close> with \<open>b\<close> a number: true only when \<open>a\<close> is a number too and both are the
  same number; \<open>NaN\<close> equals nothing.
\<close>

fun js_strict_eq_number :: "jsvalue \<Rightarrow> int option \<Rightarrow> bool" where
  "js_strict_eq_number (Number a) (Some b) = (a = b)"
| "js_strict_eq_number _ _ = False"

text \<open>\<open>a < b\<close>: both sides go through \<open>ToNumber\<close>, a comparison with \<open>NaN\<close> is false.\<close>

definition js_less :: "jsvalue \<Rightarrow> jsvalue \<Rightarrow> bool" where
  "js_less a b =
     (case (ToNumber a, ToNumber b) of (Some x, Some y) \<Rightarrow> x < y | _ \<Rightarrow> False)"

text \<open>The body of the two \<open>for\<close> loops of \<open>isready\<close>, the same text in both branches.\<close>

definition isready_body ::
  "('u, nat) jsmap \<Rightarrow> ('u, nat) jsmap \<Rightarrow> 'u \<Rightarrow> 'u \<Rightarrow> bool \<Rightarrow> bool" where
  "isready_body thisMap otherVectorMap otherUid ident ready =
     (if ident \<noteq> otherUid \<and> \<not> Map_has thisMap ident then False
      else if ident \<noteq> otherUid \<and> js_less (js_get thisMap ident) (js_get otherVectorMap ident)
      then False
      else ready)"

definition isready :: "'u VectorClock \<Rightarrow> 'u VectorClock \<Rightarrow> bool" where
  "isready this vc =
     (let otherUid = getUid vc; otherVectorMap = getVectorMap vc in
      if js_get (vectorMap this) otherUid \<noteq> Null then
        if js_strict_eq_number (js_get (vectorMap this) otherUid)
             (js_minus_one (js_get otherVectorMap otherUid))
        then fold (isready_body (vectorMap this) otherVectorMap otherUid)
               (Map_keys otherVectorMap) True
        else False
      else fold (isready_body (vectorMap this) otherVectorMap otherUid)
             (Map_keys otherVectorMap) True)"

text \<open>
  \<open>merge\<close>: one step of the loop over the other clock's keys. The key comes from the
  other map, so \<open>otherVectorMap.get(id)!\<close> is a number; the \<open>None\<close> branch below is the
  \<open>undefined\<close> that the source's \<open>!\<close> asserts away, and no key of the loop reaches it.
\<close>

definition merge_body :: "('u, nat) jsmap \<Rightarrow> 'u \<Rightarrow> ('u, nat) jsmap \<Rightarrow> ('u, nat) jsmap" where
  "merge_body otherVectorMap ident thisMap =
     (case Map_get otherVectorMap ident of
        None \<Rightarrow> thisMap
      | Some theirs \<Rightarrow>
          (case Map_get thisMap ident of
             None \<Rightarrow> Map_set ident theirs thisMap
           | Some ours \<Rightarrow> Map_set ident (max ours theirs) thisMap))"

definition merge :: "'u VectorClock \<Rightarrow> 'u VectorClock \<Rightarrow> 'u VectorClock" where
  "merge this vc =
     (let otherVectorMap = getVectorMap vc in
      this\<lparr>vectorMap :=
        fold (merge_body otherVectorMap) (Map_keys otherVectorMap) (vectorMap this)\<rparr>)"

definition setEntry :: "'u VectorClock \<Rightarrow> 'u \<Rightarrow> nat \<Rightarrow> 'u VectorClock" where
  "setEntry this someUid clockValue =
     this\<lparr>vectorMap := Map_set someUid clockValue (vectorMap this)\<rparr>"

text \<open>An entry read the way the specification reads it: an absent entry counts as 0.\<close>

definition entry :: "'u VectorClock \<Rightarrow> 'u \<Rightarrow> nat" where
  "entry c k = (case Map_get (vectorMap c) k of None \<Rightarrow> 0 | Some v \<Rightarrow> v)"


text \<open>
  The mutating methods of the class as operations, and a clock's life as a list of them
  applied to the clock the constructor builds.
\<close>

datatype 'u clock_op = Increment | Merge "'u VectorClock" | SetEntry 'u nat

fun apply_op :: "'u clock_op \<Rightarrow> 'u VectorClock \<Rightarrow> 'u VectorClock" where
  "apply_op Increment c = increment c"
| "apply_op (Merge other) c = merge c other"
| "apply_op (SetEntry k v) c = setEntry c k v"

definition run_ops :: "'u \<Rightarrow> 'u clock_op list \<Rightarrow> 'u VectorClock" where
  "run_ops replicaID ops = fold apply_op ops (new_VectorClock replicaID)"

text \<open>The maximum of two optional entries, an absent one giving way to the other.\<close>

fun max_entry :: "nat option \<Rightarrow> nat option \<Rightarrow> nat option" where
  "max_entry None b = b"
| "max_entry (Some x) None = Some x"
| "max_entry (Some x) (Some y) = Some (max x y)"


section \<open>The last-writer-wins register (client/src/crdts/basic\_crdts.ts)\<close>

text \<open>
  \<open>LwwState\<close>: the fields \<open>sender\<close> and \<open>time\<close> are nullable (\<open>None\<close> is \<open>null\<close>), the
  counter starts at \<open>-1\<close>. The field \<open>value\<close> is called \<open>lww_value\<close> here. Wall-clock times
  are the integers of \<open>Date.now()\<close>.
\<close>

record 'v LwwState =
  initialValue :: 'v
  lww_value :: 'v
  sender :: "string option"
  counter :: int
  time :: "int option"

definition new_LwwState :: "'v \<Rightarrow> string option \<Rightarrow> int \<Rightarrow> int option \<Rightarrow> 'v LwwState" where
  "new_LwwState initialValue' sender' counter' time' =
     \<lparr>initialValue = initialValue', lww_value = initialValue', sender = sender',
      counter = counter', time = time'\<rparr>"

definition resetLocalState :: "'v LwwState \<Rightarrow> 'v LwwState" where
  "resetLocalState this =
     this\<lparr>lww_value := initialValue this, sender := None, counter := -1, time := None\<rparr>"

definition new_LwwRegisterBase :: "'v \<Rightarrow> 'v LwwState" where
  "new_LwwRegisterBase initialValue' = new_LwwState initialValue' None (-1) None"

text \<open>
  The causal timestamp of a message, as the methods the code calls on it. The vector clock
  it carries is a \<open>Map\<close> from sender to counter.
\<close>

record CausalTimestamp =
  getSender :: string
  getSenderCounter :: int
  asVectorClock :: "(string, int) jsmap"
  isLocal :: bool

text \<open>
  \<open>LwwMessage\<close> after \<open>LwwMessage.decode\<close>: the serialized value and the sender's
  wall-clock time. The value serializer is a parameter of the register.
\<close>

record 'b LwwMessage =
  msg_value :: 'b
  msg_time :: int

record 'v LwwEvent =
  ev_timestamp :: CausalTimestamp
  ev_value :: 'v
  ev_oldValue :: 'v
  ev_timeSet :: int

text \<open>
  The first test of \<open>receive\<close>: the state is the initial one, or the message's vector
  clock has an entry for the stored sender that is at least the stored counter.
\<close>

definition causally_greater :: "'v LwwState \<Rightarrow> CausalTimestamp \<Rightarrow> bool" where
  "causally_greater state timestamp =
     (let vc = asVectorClock timestamp in
      case sender state of
        None \<Rightarrow> True
      | Some s \<Rightarrow>
          (case Map_get vc s of
             None \<Rightarrow> False
           | Some vcEntry \<Rightarrow> vcEntry \<ge> counter state))"

text \<open>A nullable number in a relational comparison: \<open>null\<close> converts to 0.\<close>

definition null_as_number :: "int option \<Rightarrow> int" where
  "null_as_number t = (case t of None \<Rightarrow> 0 | Some n \<Rightarrow> n)"

text \<open>
  The flag \<open>overwrite\<close> at the end of the two tests. \<open>decoded.time == this.state.time\<close> is
  false when the stored time is \<open>null\<close>. The comparison of the senders is JavaScript's
  \<open>>\<close> on strings, the lexicographic order of the code units; it is only reached with a
  stored sender, since a \<open>null\<close> sender has set the flag in the first test.
\<close>

definition lww_overwrite :: "'v LwwState \<Rightarrow> CausalTimestamp \<Rightarrow> int \<Rightarrow> bool" where
  "lww_overwrite state timestamp decoded_time =
     (let overwrite = causally_greater state timestamp in
      if \<not> overwrite then
        if decoded_time > null_as_number (time state) then True
        else if Some decoded_time = time state then
          (case sender state of None \<Rightarrow> False | Some s \<Rightarrow> getSender timestamp > s)
        else overwrite
      else overwrite)"

text \<open>
  \<open>receive\<close> answers the new state, the returned \<open>changed\<close> and the \<open>Lww\<close> event, emitted
  exactly when the value changed.
\<close>

definition receive ::
  "('b \<Rightarrow> 'v) \<Rightarrow> 'v LwwState \<Rightarrow> CausalTimestamp \<Rightarrow> 'b LwwMessage
     \<Rightarrow> 'v LwwState \<times> bool \<times> 'v LwwEvent option" where
  "receive deserialize_value state timestamp decoded =
     (let v = deserialize_value (msg_value decoded) in
      if lww_overwrite state timestamp (msg_time decoded) then
        let changed = (lww_value state \<noteq> v);
            oldValue = lww_value state;
            state' = state\<lparr>counter := getSenderCounter timestamp,
                           sender := Some (getSender timestamp),
                           time := Some (msg_time decoded),
                           lww_value := v\<rparr>
        in (state', changed,
            if changed then
              Some \<lparr>ev_timestamp = timestamp, ev_value = v, ev_oldValue = oldValue,
                    ev_timeSet = msg_time decoded\<rparr>
            else None)
      else (state, False, None))"

definition state_after ::
  "('b \<Rightarrow> 'v) \<Rightarrow> 'v LwwState \<Rightarrow> CausalTimestamp \<Rightarrow> 'b LwwMessage \<Rightarrow> 'v LwwState" where
  "state_after deserialize_value state timestamp decoded =
     fst (receive deserialize_value state timestamp decoded)"

text \<open>
  The order of two writes in the specification's words: the higher wall-clock time, the
  lexicographically greater sender ID on equal times.
\<close>

definition later_write_spec :: "int \<Rightarrow> string \<Rightarrow> int \<Rightarrow> string \<Rightarrow> bool" where
  "later_write_spec t s t0 s0 = (t > t0 \<or> (t = t0 \<and> s > s0))"

section \<open>The set of dynamically created children (client/src/crdt/set/yjs\_crdt\_sets.ts)\<close>

text \<open>
  \<open>YjsCrdtSetMessage\<close> after \<open>decode\<close>: the \<open>oneof op\<close> is \<open>create\<close> with the creator's
  replica-unique number, \<open>delete\<close> with the child's name, or not set.
\<close>

datatype YjsCrdtSetMessage = Create int | Delete string | Unset

datatype 'c CrdtSetEvent =
    ValueInit 'c
  | Add 'c CausalTimestamp
  | DeleteEvent 'c CausalTimestamp

datatype set_error =
    Duplicate_newCrdt_name string
  | Unknown_decoded_op
  | Operation_performed_on_deleted_child string
  | Passed_as_parent_externally
  | Decode_error
  | Child_error string

text \<open>
  What the set is built from and calls, none of it in this file of the source: the
  constructor of a child, \<open>Crdt.init\<close> and \<open>Crdt.receive\<close> of a child, the generated
  \<open>YjsCrdtSetMessage.decode\<close>, the name serializer and \<open>arrayAsString\<close>. \<open>'c\<close> is the
  type of a child, \<open>'m\<close> the type of a message's bytes. A child's \<open>receive\<close> answers the
  child and the target path as it leaves them.
\<close>

record ('c, 'm) YjsCrdtSet_env =
  valueCrdtConstructor :: "string \<Rightarrow> 'c"
  Crdt_init :: "string \<Rightarrow> 'c \<Rightarrow> 'c"
  Crdt_receive ::
    "'c \<Rightarrow> string list \<Rightarrow> CausalTimestamp \<Rightarrow> 'm \<Rightarrow> set_error + ('c \<times> string list)"
  YjsCrdtSetMessage_decode :: "'m \<Rightarrow> YjsCrdtSetMessage option"
  nameSerializer_serialize :: "string \<times> int \<Rightarrow> 8 word list"
  arrayAsString :: "8 word list \<Rightarrow> string"

record 'c YjsCrdtSet =
  children :: "(string, 'c) jsmap"
  childBeingAdded :: "'c option"
  ourCreatedCrdt :: "'c option"
  emitted :: "'c CrdtSetEvent list"

fun Map_delete :: "'k \<Rightarrow> ('k, 'v) jsmap \<Rightarrow> ('k, 'v) jsmap" where
  "Map_delete k [] = []"
| "Map_delete k (p # ps) = (if fst p = k then ps else p # Map_delete k ps)"

definition onChildInit :: "'c YjsCrdtSet \<Rightarrow> 'c \<Rightarrow> set_error + unit" where
  "onChildInit this child =
     (if Some child \<noteq> childBeingAdded this then Inl Passed_as_parent_externally else Inr ())"

text \<open>
  \<open>receiveInternal\<close> answers the error thrown, or the set and the target path as the call
  leaves them (the path is an array that the call shortens in place). In the \<open>create\<close>
  case the child is stored under its name, \<open>init\<close> runs between the two assignments of
  \<open>childBeingAdded\<close>, and the events \<open>ValueInit\<close> and \<open>Add\<close> are emitted. The child found
  for a non-empty path lives in the map, so what its \<open>receive\<close> does to it is seen there.
\<close>

definition receiveInternal ::
  "('c, 'm) YjsCrdtSet_env \<Rightarrow> 'c YjsCrdtSet \<Rightarrow> string list \<Rightarrow> CausalTimestamp \<Rightarrow> 'm
     \<Rightarrow> set_error + ('c YjsCrdtSet \<times> string list)" where
  "receiveInternal env this targetPath timestamp message =
     (if length targetPath = 0 then
        (case YjsCrdtSetMessage_decode env message of
           None \<Rightarrow> Inl Decode_error
         | Some (Create n) \<Rightarrow>
             (let newCrdt = valueCrdtConstructor env (getSender timestamp);
                  name = arrayAsString env (nameSerializer_serialize env (getSender timestamp, n))
              in if Map_has (children this) name then Inl (Duplicate_newCrdt_name name)
                 else
                   let newCrdt = Crdt_init env name newCrdt;
                       this = this\<lparr>children := Map_set name newCrdt (children this),
                                    childBeingAdded := None,
                                    emitted := emitted this
                                       @ [ValueInit newCrdt, Add newCrdt timestamp]\<rparr>;
                       this = (if isLocal timestamp then this\<lparr>ourCreatedCrdt := Some newCrdt\<rparr>
                               else this)
                   in Inr (this, targetPath))
         | Some (Delete name) \<Rightarrow>
             (case Map_get (children this) name of
                Some valueCrdt \<Rightarrow>
                  Inr (this\<lparr>children := Map_delete name (children this),
                            emitted := emitted this @ [DeleteEvent valueCrdt timestamp]\<rparr>,
                       targetPath)
              | None \<Rightarrow> Inr (this, targetPath))
         | Some Unset \<Rightarrow> Inl Unknown_decoded_op)
      else
        (case Map_get (children this) (last targetPath) of
           None \<Rightarrow>
             if isLocal timestamp
             then Inl (Operation_performed_on_deleted_child (last targetPath))
             else Inr (this, targetPath)
         | Some child \<Rightarrow>
             (case Crdt_receive env child (butlast targetPath) timestamp message of
                Inl e \<Rightarrow> Inl e
              | Inr (child', targetPath') \<Rightarrow>
                  Inr (this\<lparr>children := Map_set (last targetPath) child' (children this)\<rparr>,
                       targetPath'))))"

section \<open>The protocol-buffers wire format of the generated codecs\<close>

text \<open>
  Modelled from the spec: the classes that protobuf.js generates from
  src/core/src/util/serializers.proto (generated/proto\_compiled, with their \<open>create\<close>,
  \<open>encode\<close> and \<open>decode\<close>) are missing from the sources. The specification names Protocol
  Buffers as the encoding; what follows is the codec that the \<open>.proto\<close> file and that wire
  format determine: a message is the sequence of its fields, each a tag (field number
  times 8 plus wire type) and a value; integers are base-128 varints; \<open>sint64\<close> is a zig-zag
  coded 64-bit integer; strings and bytes are preceded by their length; a field that the
  message type does not declare is skipped when read and is never written.
\<close>

type_synonym byte = "8 word"

function varint :: "nat \<Rightarrow> byte list" where
  "varint n = (if n < 128 then [of_nat n] else of_nat (128 + n mod 128) # varint (n div 128))"
  by pat_completeness auto
termination
  by (relation "measure id") auto

declare varint.simps [simp del]

text \<open>
  Reading a varint: seven bits a byte, the low group first, up to the first byte below
  128; \<open>None\<close> when the bytes end before that (the reader throws). A varint of more bytes
  than its type needs is read to its end; the value is cut to 32 or 64 bits where it is
  used.
\<close>

fun read_varint :: "byte list \<Rightarrow> (nat \<times> byte list) option" where
  "read_varint [] = None"
| "read_varint (b # bs) =
     (if unat b < 128 then Some (unat b, bs)
      else (case read_varint bs of
              None \<Rightarrow> None
            | Some (n, rest) \<Rightarrow> Some (unat b - 128 + 128 * n, rest)))"

definition write_tag :: "nat \<Rightarrow> nat \<Rightarrow> byte list" where
  "write_tag fieldNo wireType = varint (fieldNo * 8 + wireType)"

definition write_bytes :: "byte list \<Rightarrow> byte list" where
  "write_bytes bs = varint (length bs) @ bs"

text \<open>A \<open>string\<close> of the model is the sequence of the bytes of its UTF-8 form.\<close>

definition utf8_write :: "string \<Rightarrow> byte list" where
  "utf8_write s = map (\<lambda>c. of_nat (of_char c)) s"

definition utf8_read :: "byte list \<Rightarrow> string" where
  "utf8_read bs = map (\<lambda>b. char_of (unat b)) bs"

definition write_string :: "string \<Rightarrow> byte list" where
  "write_string s = write_bytes (utf8_write s)"

definition write_bool :: "bool \<Rightarrow> byte list" where
  "write_bool b = varint (if b then 1 else 0)"

text \<open>
  A 64-bit field holds a JavaScript number or, when the Long library is loaded, a \<open>Long\<close>.
  The writer takes the 64 bits of either (two's complement for a number); zig-zag coding
  is \<open>(n << 1) ^ (n >> 63)\<close> on 64 bits, and back \<open>(n >>> 1) ^ -(n & 1)\<close>.
\<close>

datatype int64 = AsNumber int | AsLong "64 word"

definition LongBits_from :: "int64 \<Rightarrow> 64 word" where
  "LongBits_from v = (case v of AsNumber n \<Rightarrow> word_of_int n | AsLong w \<Rightarrow> w)"

definition zzEncode :: "64 word \<Rightarrow> 64 word" where
  "zzEncode w = push_bit 1 w XOR signed_drop_bit 63 w"

definition zzDecode :: "64 word \<Rightarrow> 64 word" where
  "zzDecode w = drop_bit 1 w XOR (- (w AND 1))"

definition write_sint64 :: "int64 \<Rightarrow> byte list" where
  "write_sint64 v = varint (unat (zzEncode (LongBits_from v)))"

text \<open>
  A JavaScript number: \<open>Integer n\<close> is the number whose value is the integer \<open>n\<close>,
  \<open>Double b\<close> any other number (a fraction, \<open>NaN\<close>, an infinity) by its IEEE-754 bits.
  Floating point itself is not modelled: the eight bytes of a \<open>double\<close> field and the
  rounding of an integer beyond \<open>2^53\<close> to the nearest double are parameters.
\<close>

datatype number = Integer int | Double "64 word"

record ieee754 =
  writeDoubleLE :: "number \<Rightarrow> byte list"
  readDoubleLE :: "byte list \<Rightarrow> number"
  nearest :: "int \<Rightarrow> int"

text \<open>
  \<open>toNumber\<close> of 64 signed bits: \<open>high * 2^32 + low\<close> in double arithmetic, which is the
  value itself up to \<open>2^53\<close> in size and the nearest double beyond.
\<close>

definition toNumber :: "ieee754 \<Rightarrow> 64 word \<Rightarrow> int" where
  "toNumber ieee w = (let v = sint w in if \<bar>v\<bar> \<le> 2 ^ 53 then v else nearest ieee v)"

definition read_bytes :: "byte list \<Rightarrow> (byte list \<times> byte list) option" where
  "read_bytes bs =
     (case read_varint bs of
        None \<Rightarrow> None
      | Some (n, rest) \<Rightarrow>
          if length rest < n mod 2 ^ 32 then None
          else Some (take (n mod 2 ^ 32) rest, drop (n mod 2 ^ 32) rest))"

definition read_string :: "byte list \<Rightarrow> (string \<times> byte list) option" where
  "read_string bs = map_option (\<lambda>(b, rest). (utf8_read b, rest)) (read_bytes bs)"

definition read_bool :: "byte list \<Rightarrow> (bool \<times> byte list) option" where
  "read_bool bs = map_option (\<lambda>(n, rest). (n mod 2 ^ 32 \<noteq> 0, rest)) (read_varint bs)"

definition read_sint64 :: "ieee754 \<Rightarrow> bool \<Rightarrow> byte list \<Rightarrow> (int64 \<times> byte list) option" where
  "read_sint64 ieee useLong bs =
     map_option (\<lambda>(n, rest).
        (let bits = zzDecode (word_of_nat n)
         in if useLong then AsLong bits else AsNumber (toNumber ieee bits), rest))
       (read_varint bs)"

definition read_double :: "ieee754 \<Rightarrow> byte list \<Rightarrow> (number \<times> byte list) option" where
  "read_double ieee bs =
     (if length bs < 8 then None else Some (readDoubleLE ieee (take 8 bs), drop 8 bs))"

text \<open>
  \<open>skipType\<close> passes over a field by its wire type: a varint, 8 bytes, a length and that
  many bytes, 4 bytes. Groups are not modelled and count as an error, like an unknown wire
  type.
\<close>

definition skipType :: "nat \<Rightarrow> byte list \<Rightarrow> byte list option" where
  "skipType wireType bs =
     (if wireType = 0 then map_option snd (read_varint bs)
      else if wireType = 1 then (if length bs < 8 then None else Some (drop 8 bs))
      else if wireType = 2 then map_option snd (read_bytes bs)
      else if wireType = 5 then (if length bs < 4 then None else Some (drop 4 bs))
      else None)"

lemma read_varint_shorter: "read_varint bs = Some (n, rest) \<Longrightarrow> length rest < length bs"
  by (induction bs arbitrary: n rest) (auto split: if_splits option.splits)

lemma read_bytes_shorter: "read_bytes bs = Some (b, rest) \<Longrightarrow> length rest \<le> length bs"
proof -
  assume a: "read_bytes bs = Some (b, rest)"
  then obtain n r where r: "read_varint bs = Some (n, r)" and "rest = drop (n mod 2 ^ 32) r"
    by (auto simp: read_bytes_def split: option.splits if_splits)
  then show ?thesis using read_varint_shorter [OF r] by simp
qed

lemma read_string_shorter: "read_string bs = Some (b, rest) \<Longrightarrow> length rest \<le> length bs"
  by (auto simp: read_string_def dest: read_bytes_shorter)

lemma read_bool_shorter: "read_bool bs = Some (b, rest) \<Longrightarrow> length rest \<le> length bs"
  by (auto simp: read_bool_def dest: read_varint_shorter less_imp_le)

lemma read_sint64_shorter:
  "read_sint64 ieee useLong bs = Some (b, rest) \<Longrightarrow> length rest \<le> length bs"
  by (auto simp: read_sint64_def dest: read_varint_shorter less_imp_le)

lemma read_double_shorter:
  "read_double ieee bs = Some (b, rest) \<Longrightarrow> length rest \<le> length bs"
  by (auto simp: read_double_def split: if_splits)

lemma skipType_shorter: "skipType w bs = Some rest \<Longrightarrow> length rest \<le> length bs"
  by (auto simp: skipType_def split: if_splits
      dest: read_varint_shorter read_bytes_shorter less_imp_le)

section \<open>The default serializer (core/src/util/serializers.ts)\<close>

text \<open>
  Modelled from the spec: \<open>DefaultSerializerMessage\<close> with its \<open>encode\<close> and \<open>decode\<close>,
  of the missing generated file, as serializers.proto declares the message. It is a
  \<open>oneof\<close>; \<open>NoValue\<close> is the message with no field set. The array, object and optional
  cases hold nested messages and are left out of the model, with the values that lead to
  them; a nested field met while decoding is reported as \<open>Nested_message\<close>.
\<close>

datatype DefaultSerializerMessage =
    StringValue string
  | IntValue int64
  | DoubleValue number
  | BooleanValue bool
  | UndefinedValue bool
  | NullValue bool
  | BytesValue "byte list"
  | NoValue

datatype serializer_error =
    Unsupported_type
  | Wire_error
  | Nested_message
  | Bad_message_format

definition DefaultSerializerMessage_encode ::
  "ieee754 \<Rightarrow> DefaultSerializerMessage \<Rightarrow> byte list" where
  "DefaultSerializerMessage_encode ieee message =
     (case message of
        StringValue s \<Rightarrow> write_tag 1 2 @ write_string s
      | IntValue n \<Rightarrow> write_tag 2 0 @ write_sint64 n
      | DoubleValue d \<Rightarrow> write_tag 3 1 @ writeDoubleLE ieee d
      | BooleanValue b \<Rightarrow> write_tag 4 0 @ write_bool b
      | UndefinedValue b \<Rightarrow> write_tag 5 0 @ write_bool b
      | NullValue b \<Rightarrow> write_tag 6 0 @ write_bool b
      | BytesValue b \<Rightarrow> write_tag 9 2 @ write_bytes b
      | NoValue \<Rightarrow> [])"

definition got ::
  "('a \<Rightarrow> 'b) \<Rightarrow> ('a \<times> byte list) option \<Rightarrow> serializer_error + ('b \<times> byte list)" where
  "got f r = (case r of None \<Rightarrow> Inl Wire_error | Some (v, rest) \<Rightarrow> Inr (f v, rest))"

text \<open>
  One round of the decoder's loop after the tag: the \<open>switch\<close> on the field number. The
  field read last is the one the decoded message shows.
\<close>

definition DefaultSerializerMessage_field ::
  "ieee754 \<Rightarrow> bool \<Rightarrow> nat \<Rightarrow> nat \<Rightarrow> byte list \<Rightarrow> DefaultSerializerMessage
     \<Rightarrow> serializer_error + (DefaultSerializerMessage \<times> byte list)" where
  "DefaultSerializerMessage_field ieee useLong fieldNo wireType bs message =
     (if fieldNo = 1 then got StringValue (read_string bs)
      else if fieldNo = 2 then got IntValue (read_sint64 ieee useLong bs)
      else if fieldNo = 3 then got DoubleValue (read_double ieee bs)
      else if fieldNo = 4 then got BooleanValue (read_bool bs)
      else if fieldNo = 5 then got UndefinedValue (read_bool bs)
      else if fieldNo = 6 then got NullValue (read_bool bs)
      else if fieldNo = 7 \<or> fieldNo = 8 \<or> fieldNo = 10 then Inl Nested_message
      else if fieldNo = 9 then got BytesValue (read_bytes bs)
      else got (\<lambda>_. message) (map_option (Pair ()) (skipType wireType bs)))"

lemma got_shorter:
  assumes "got f r = Inr (m, rest)"
    and "\<And>v. r = Some (v, rest) \<Longrightarrow> length rest \<le> length bs"
  shows "length rest \<le> length bs"
  using assms by (auto simp: got_def split: option.splits)

lemma DefaultSerializerMessage_field_shorter:
  assumes "DefaultSerializerMessage_field ieee useLong fieldNo wireType bs message
             = Inr (message', rest)"
  shows "length rest \<le> length bs"
proof -
  consider "fieldNo = 1" | "fieldNo = 2" | "fieldNo = 3" | "fieldNo = 4" | "fieldNo = 5"
    | "fieldNo = 6" | "fieldNo = 9" | "fieldNo \<in> {7, 8, 10}"
    | "fieldNo \<notin> {1, 2, 3, 4, 5, 6, 7, 8, 9, 10}"
    by auto
  then show ?thesis
  proof cases
    case 1
    with assms show ?thesis
      by (auto simp: DefaultSerializerMessage_field_def elim!: got_shorter
          dest: read_string_shorter)
  next
    case 2
    with assms show ?thesis
      by (auto simp: DefaultSerializerMessage_field_def elim!: got_shorter
          dest: read_sint64_shorter)
  next
    case 3
    with assms show ?thesis
      by (auto simp: DefaultSerializerMessage_field_def elim!: got_shorter
          dest: read_double_shorter)
  next
    case 4
    with assms show ?thesis
      by (auto simp: DefaultSerializerMessage_field_def elim!: got_shorter
          dest: read_bool_shorter)
  next
    case 5
    with assms show ?thesis
      by (auto simp: DefaultSerializerMessage_field_def elim!: got_shorter
          dest: read_bool_shorter)
  next
    case 6
    with assms show ?thesis
      by (auto simp: DefaultSerializerMessage_field_def elim!: got_shorter
          dest: read_bool_shorter)
  next
    case 7
    with assms show ?thesis
      by (auto simp: DefaultSerializerMessage_field_def elim!: got_shorter
          dest: read_bytes_shorter)
  next
    case 8
    with assms show ?thesis
      by (auto simp: DefaultSerializerMessage_field_def)
  next
    case 9
    with assms show ?thesis
      by (auto simp: DefaultSerializerMessage_field_def elim!: got_shorter
          dest: skipType_shorter)
  qed
qed

text \<open>The loop \<open>while (reader.pos < end)\<close>: a tag, then the field.\<close>

function DefaultSerializerMessage_decode_loop ::
  "ieee754 \<Rightarrow> bool \<Rightarrow> byte list \<Rightarrow> DefaultSerializerMessage
     \<Rightarrow> serializer_error + DefaultSerializerMessage" where
  "DefaultSerializerMessage_decode_loop ieee useLong bs message =
     (if bs = [] then Inr message
      else
        (case read_varint bs of
           None \<Rightarrow> Inl Wire_error
         | Some (tag, bs1) \<Rightarrow>
             (case DefaultSerializerMessage_field ieee useLong ((tag mod 2 ^ 32) div 8) (tag mod 8)
                     bs1 message of
                Inl e \<Rightarrow> Inl e
              | Inr (message', bs2) \<Rightarrow>
                  DefaultSerializerMessage_decode_loop ieee useLong bs2 message')))"
  by pat_completeness auto
termination
proof (relation "measure (\<lambda>(ieee, useLong, bs, message). length bs)")
  show "wf (measure (\<lambda>(ieee :: ieee754, useLong :: bool, bs :: byte list,
                           message :: DefaultSerializerMessage). length bs))"
    by simp
next
  fix ieee :: ieee754 and useLong :: bool and bs :: "byte list"
    and message message' :: DefaultSerializerMessage
    and x2 tag bs1 b bs2
  assume v: "read_varint bs = Some x2" "(tag, bs1) = x2"
    and f: "DefaultSerializerMessage_field ieee useLong (tag mod 2 ^ 32 div 8) (tag mod 8)
              bs1 message = Inr b" "(message', bs2) = b"
  from v have "length bs1 < length bs"
    using read_varint_shorter [of bs tag bs1] by simp
  moreover from f have "length bs2 \<le> length bs1"
    using DefaultSerializerMessage_field_shorter
      [of ieee useLong "tag mod 2 ^ 32 div 8" "tag mod 8" bs1 message message' bs2]
    by simp
  ultimately show "((ieee, useLong, bs2, message'), (ieee, useLong, bs, message))
      \<in> measure (\<lambda>(ieee, useLong, bs, message). length bs)"
    by simp
qed

declare DefaultSerializerMessage_decode_loop.simps [simp del]

definition DefaultSerializerMessage_decode ::
  "ieee754 \<Rightarrow> bool \<Rightarrow> byte list \<Rightarrow> serializer_error + DefaultSerializerMessage" where
  "DefaultSerializerMessage_decode ieee useLong bs =
     DefaultSerializerMessage_decode_loop ieee useLong bs NoValue"

text \<open>
  The values the model serializes: the primitive types, \<open>null\<close>, a \<open>Uint8Array\<close>, and
  \<open>VUnsupported\<close> for a value whose \<open>typeof\<close> is none of the cases of the \<open>switch\<close>.
\<close>

datatype jsval =
    VString string
  | VNumber number
  | VBoolean bool
  | VUndefined
  | VNull
  | VUint8Array "byte list"
  | VUnsupported

text \<open>\<open>Number.isSafeInteger\<close>: an integer of size at most \<open>2^53 - 1\<close>.\<close>

definition isSafeInteger :: "number \<Rightarrow> bool" where
  "isSafeInteger v = (case v of Integer n \<Rightarrow> \<bar>n\<bar> \<le> 2 ^ 53 - 1 | Double _ \<Rightarrow> False)"

definition serialize :: "ieee754 \<Rightarrow> jsval \<Rightarrow> serializer_error + byte list" where
  "serialize ieee v =
     (case
        (case v of
           VString s \<Rightarrow> Inr (StringValue s)
         | VNumber n \<Rightarrow>
             (if isSafeInteger n
              then (case n of
                      Integer i \<Rightarrow> Inr (IntValue (AsNumber i))
                    | Double _ \<Rightarrow> Inr (DoubleValue n))
              else Inr (DoubleValue n))
         | VBoolean b \<Rightarrow> Inr (BooleanValue b)
         | VUndefined \<Rightarrow> Inr (UndefinedValue True)
         | VNull \<Rightarrow> Inr (NullValue True)
         | VUint8Array b \<Rightarrow> Inr (BytesValue b)
         | VUnsupported \<Rightarrow> Inl Unsupported_type)
      of Inl e \<Rightarrow> Inl e
       | Inr message \<Rightarrow> Inr (DefaultSerializerMessage_encode ieee message))"

definition int64AsNumber :: "ieee754 \<Rightarrow> int64 \<Rightarrow> number" where
  "int64AsNumber ieee num =
     (case num of AsNumber n \<Rightarrow> Integer n | AsLong w \<Rightarrow> Integer (toNumber ieee w))"

definition deserialize :: "ieee754 \<Rightarrow> bool \<Rightarrow> byte list \<Rightarrow> serializer_error + jsval" where
  "deserialize ieee useLong message =
     (case DefaultSerializerMessage_decode ieee useLong message of
        Inl e \<Rightarrow> Inl e
      | Inr decoded \<Rightarrow>
          (case decoded of
             StringValue s \<Rightarrow> Inr (VString s)
           | IntValue i \<Rightarrow> Inr (VNumber (int64AsNumber ieee i))
           | DoubleValue d \<Rightarrow> Inr (VNumber d)
           | BooleanValue b \<Rightarrow> Inr (VBoolean b)
           | UndefinedValue _ \<Rightarrow> Inr VUndefined
           | NullValue _ \<Rightarrow> Inr VNull
           | BytesValue b \<Rightarrow> Inr (VUint8Array b)
           | NoValue \<Rightarrow> Inl Bad_message_format))"

section \<open>The CollabID serializer (core/src/util/serializers.ts)\<close>

text \<open>
  Modelled from the spec: \<open>CollabIDMessage\<close> with its \<open>create\<close>, \<open>encode\<close> and
  \<open>decode\<close>, of the missing generated file. The message has one field, a repeated string
  with number 1. The serializer is written against a generated class that calls this field
  \<open>namePath\<close>: it passes \<open>{ namePath: ... }\<close> to \<open>create\<close> and reads
  \<open>decoded.namePath\<close>, and that is the declared field of the model (\<open>msg_namePath\<close>).
  The copy of serializers.proto among the sources spells the same field
  \<open>collabIDPath\<close>, a name this serializer is not typed against; the name of a field does
  not reach the wire. A message object is a JavaScript object: besides the declared field
  it can hold any other own property (\<open>expando\<close>), which \<open>create\<close> copies from its
  argument like the declared one, and which \<open>encode\<close> does not write. Reading a property
  that the object does not have gives \<open>undefined\<close> (\<open>None\<close>).
\<close>

record CollabIDMessage =
  msg_namePath :: "string list"
  expando :: "(string, string list) jsmap"

definition CollabIDMessage_put ::
  "string \<Rightarrow> string list \<Rightarrow> CollabIDMessage \<Rightarrow> CollabIDMessage" where
  "CollabIDMessage_put key v message =
     (if key = ''namePath'' then message\<lparr>msg_namePath := v\<rparr>
      else message\<lparr>expando := Map_set key v (expando message)\<rparr>)"

definition CollabIDMessage_get :: "CollabIDMessage \<Rightarrow> string \<Rightarrow> string list option" where
  "CollabIDMessage_get message key =
     (if key = ''namePath'' then Some (msg_namePath message)
      else Map_get (expando message) key)"

text \<open>\<open>create(properties)\<close>: every property that is not \<open>null\<close> or \<open>undefined\<close> is copied.\<close>

definition CollabIDMessage_create :: "(string \<times> string list option) list \<Rightarrow> CollabIDMessage" where
  "CollabIDMessage_create properties =
     fold (\<lambda>(key, v) message.
             case v of None \<Rightarrow> message | Some p \<Rightarrow> CollabIDMessage_put key p message)
       properties \<lparr>msg_namePath = [], expando = []\<rparr>"

definition CollabIDMessage_encode :: "CollabIDMessage \<Rightarrow> byte list" where
  "CollabIDMessage_encode message =
     concat (map (\<lambda>s. write_tag 1 2 @ write_string s) (msg_namePath message))"

definition CollabIDMessage_field ::
  "nat \<Rightarrow> nat \<Rightarrow> byte list \<Rightarrow> CollabIDMessage
     \<Rightarrow> serializer_error + (CollabIDMessage \<times> byte list)" where
  "CollabIDMessage_field fieldNo wireType bs message =
     (if fieldNo = 1 then
        (case read_string bs of
           None \<Rightarrow> Inl Wire_error
         | Some (s, rest) \<Rightarrow> Inr (message\<lparr>msg_namePath := msg_namePath message @ [s]\<rparr>, rest))
      else
        (case skipType wireType bs of
           None \<Rightarrow> Inl Wire_error
         | Some rest \<Rightarrow> Inr (message, rest)))"

lemma CollabIDMessage_field_shorter:
  assumes "CollabIDMessage_field fieldNo wireType bs message = Inr (message', rest)"
  shows "length rest \<le> length bs"
  using assms
  by (auto simp: CollabIDMessage_field_def split: if_splits option.splits
      dest: read_string_shorter skipType_shorter)

function CollabIDMessage_decode_loop ::
  "byte list \<Rightarrow> CollabIDMessage \<Rightarrow> serializer_error + CollabIDMessage" where
  "CollabIDMessage_decode_loop bs message =
     (if bs = [] then Inr message
      else
        (case read_varint bs of
           None \<Rightarrow> Inl Wire_error
         | Some (tag, bs1) \<Rightarrow>
             (case CollabIDMessage_field ((tag mod 2 ^ 32) div 8) (tag mod 8) bs1 message of
                Inl e \<Rightarrow> Inl e
              | Inr (message', bs2) \<Rightarrow> CollabIDMessage_decode_loop bs2 message')))"
  by pat_completeness auto
termination
proof (relation "measure (\<lambda>(bs, message). length bs)")
  show "wf (measure (\<lambda>(bs :: byte list, message :: CollabIDMessage). length bs))"
    by simp
next
  fix bs :: "byte list" and message message' :: CollabIDMessage and x2 tag bs1 b bs2
  assume v: "read_varint bs = Some x2" "(tag, bs1) = x2"
    and f: "CollabIDMessage_field (tag mod 2 ^ 32 div 8) (tag mod 8) bs1 message = Inr b"
      "(message', bs2) = b"
  from v have "length bs1 < length bs"
    using read_varint_shorter [of bs tag bs1] by simp
  moreover from f have "length bs2 \<le> length bs1"
    using CollabIDMessage_field_shorter
      [of "tag mod 2 ^ 32 div 8" "tag mod 8" bs1 message message' bs2]
    by simp
  ultimately show "((bs2, message'), (bs, message)) \<in> measure (\<lambda>(bs, message). length bs)"
    by simp
qed

declare CollabIDMessage_decode_loop.simps [simp del]

definition CollabIDMessage_decode :: "byte list \<Rightarrow> serializer_error + CollabIDMessage" where
  "CollabIDMessage_decode bs =
     CollabIDMessage_decode_loop bs \<lparr>msg_namePath = [], expando = []\<rparr>"

text \<open>
  A \<open>CollabID\<close> is an object with the property \<open>namePath\<close>. TypeScript gives it the type
  \<open>string[]\<close>; the object that \<open>deserialize\<close> builds holds whatever the decoded message
  answers for \<open>namePath\<close>, which can be \<open>undefined\<close> (\<open>None\<close>).
\<close>

record CollabID =
  namePath :: "string list option"

definition CollabIDSerializer_serialize :: "CollabID \<Rightarrow> byte list" where
  "CollabIDSerializer_serialize v =
     (let message = CollabIDMessage_create [(''namePath'', namePath v)]
      in CollabIDMessage_encode message)"

definition CollabIDSerializer_deserialize :: "byte list \<Rightarrow> serializer_error + CollabID" where
  "CollabIDSerializer_deserialize message =
     (case CollabIDMessage_decode message of
        Inl e \<Rightarrow> Inl e
      | Inr decoded \<Rightarrow> Inr \<lparr>namePath = CollabIDMessage_get decoded ''namePath''\<rparr>)"

section \<open>AbstractDoc.idOf (unnamed/part\_000)\<close>

text \<open>
  A runtime is an object, compared by identity: \<open>runtime_ref\<close>. Its method \<open>idOf\<close> belongs
  to \<open>CRuntime\<close>, which is not among the sources at hand, and is a field of the record: it
  answers a \<open>CollabID\<close> or throws. A Collab knows its runtime.
\<close>

record Collab =
  collab_name :: string
  collab_runtime :: nat

datatype doc_error =
    idOf_called_with_Collab_from_different_AbstractDoc
  | Runtime_error string

record CRuntime =
  runtime_ref :: nat
  runtime_idOf :: "Collab \<Rightarrow> doc_error + CollabID"

record AbstractDoc =
  runtime :: CRuntime

definition idOf :: "AbstractDoc \<Rightarrow> Collab \<Rightarrow> doc_error + CollabID" where
  "idOf this collab =
     (if collab_runtime collab \<noteq> runtime_ref (runtime this)
      then Inl idOf_called_with_Collab_from_different_AbstractDoc
      else runtime_idOf (runtime this) collab)"

section \<open>Facts about maps\<close>

lemma map_of_Map_set: "map_of (Map_set k v m) = (map_of m)(k \<mapsto> v)"
  by (induction m) (auto simp: fun_eq_iff)

lemma Map_get_Map_set: "Map_get (Map_set k v m) j = (if j = k then Some v else Map_get m j)"
  by (simp add: Map_get_def map_of_Map_set)

lemma set_Map_keys_Map_set: "set (Map_keys (Map_set k v m)) = insert k (set (Map_keys m))"
  by (induction m) (auto simp: Map_keys_def)

lemma Map_get_None_iff: "Map_get m k = None \<longleftrightarrow> k \<notin> set (Map_keys m)"
  by (simp add: Map_get_def Map_keys_def map_of_eq_None_iff)

lemma Map_has_iff: "Map_has m k \<longleftrightarrow> k \<in> set (Map_keys m)"
  by (simp add: Map_has_def Map_keys_def map_of_eq_None_iff)

section \<open>increment\<close>

lemma js_plus_one_ge: "v \<le> js_plus_one v"
  by (simp add: js_plus_one_def)

text \<open>
  C4, as the code has it. When the clock's map has an entry for its own uid and that
  entry is below \<open>2^53\<close>, \<open>increment\<close> raises it by exactly 1. Whatever the entry is,
  \<open>increment\<close> leaves the uid and every other entry as they were, and lowers no entry.
\<close>

theorem increment_own_entry_plus_one:
  assumes "Map_get (vectorMap c) (uid c) = Some v"
  shows "(v < 2 ^ 53 \<longrightarrow> Map_get (vectorMap (increment c)) (uid c) = Some (v + 1))
       \<and> uid (increment c) = uid c
       \<and> (\<forall>k. k \<noteq> uid c \<longrightarrow> Map_get (vectorMap (increment c)) k = Map_get (vectorMap c) k)
       \<and> (\<forall>k. entry c k \<le> entry (increment c) k)"
  using assms
  by (simp add: increment_def Map_get_Map_set entry_def js_plus_one_ge) (simp add: js_plus_one_def)

theorem increment_own_entry_plus_one_witness:
  "Map_get (vectorMap (setEntry (new_VectorClock ''a'') ''b'' 4)) ''a'' = Some 0
   \<and> Map_get (vectorMap (increment (setEntry (new_VectorClock ''a'') ''b'' 4))) ''a'' = Some 1
   \<and> Map_get (vectorMap (increment (setEntry (new_VectorClock ''a'') ''b'' 4))) ''b'' = Some 4"
proof -
  let ?c = "setEntry (new_VectorClock ''a'') ''b'' 4"
  have u: "uid ?c = ''a''" by (simp add: setEntry_def new_VectorClock_def)
  have h: "Map_get (vectorMap ?c) (uid ?c) = Some 0"
    by (simp add: setEntry_def new_VectorClock_def Map_get_def)
  have b: "Map_get (vectorMap ?c) ''b'' = Some 4"
    by (simp add: setEntry_def new_VectorClock_def Map_get_def)
  have small: "(0 :: nat) < 2 ^ 53" by simp
  from increment_own_entry_plus_one [OF h] small u b h show ?thesis by simp
qed

text \<open>
  C4, as the claim states it, fails: \<open>setEntry\<close> has put the own entry at
  \<open>2^53 = 9007199254740992\<close>; \<open>increment\<close> stores \<open>2^53 + 1\<close> rounded to a double, which
  is \<open>2^53\<close> again, and the entry has not grown.
\<close>

theorem increment_at_2_53_counterexample:
  "Map_get (vectorMap (setEntry (new_VectorClock ''a'') ''a'' 9007199254740992)) ''a''
     = Some 9007199254740992
   \<and> Map_get (vectorMap (increment (setEntry (new_VectorClock ''a'') ''a'' 9007199254740992))) ''a''
     = Some 9007199254740992"
  by (simp add: setEntry_def new_VectorClock_def increment_def Map_get_def js_plus_one_def)

section \<open>merge\<close>

lemma max_entry_None_right: "max_entry a None = a"
  by (cases a) auto

lemma max_entry_idem: "max_entry (max_entry a b) b = max_entry a b"
  by (cases a; cases b) auto

lemma Map_get_merge_body:
  "Map_get (merge_body other k m) j =
     (if j = k then max_entry (Map_get m k) (Map_get other k) else Map_get m j)"
  by (auto simp: merge_body_def Map_get_Map_set max_entry_None_right split: option.splits)

lemma Map_get_fold_merge_body:
  "Map_get (fold (merge_body other) ks m) j =
     (if j \<in> set ks then max_entry (Map_get m j) (Map_get other j) else Map_get m j)"
proof (induction ks arbitrary: m)
  case Nil
  show ?case by simp
next
  case (Cons k ks)
  show ?case
    by (simp add: Cons.IH Map_get_merge_body max_entry_idem)
qed

lemma Map_get_merge:
  "Map_get (vectorMap (merge a b)) j =
     max_entry (Map_get (vectorMap a) j) (Map_get (vectorMap b) j)"
  by (simp add: merge_def Let_def getVectorMap_def Map_get_fold_merge_body
      Map_get_None_iff [symmetric] max_entry_None_right)

text \<open>
  C3. After \<open>merge\<close>, the entry of every key of either map is the maximum of the two
  previous entries, an absent entry counting as 0; every key of the local map is still a
  key; the uid is unchanged.
\<close>

theorem merge_elementwise_max:
  "(\<forall>k. k \<in> set (Map_keys (vectorMap a)) \<union> set (Map_keys (vectorMap b)) \<longrightarrow>
        Map_get (vectorMap (merge a b)) k = Some (max (entry a k) (entry b k)))
   \<and> set (Map_keys (vectorMap a)) \<subseteq> set (Map_keys (vectorMap (merge a b)))
   \<and> uid (merge a b) = uid a"
proof (intro conjI allI impI subsetI)
  fix k assume "k \<in> set (Map_keys (vectorMap a)) \<union> set (Map_keys (vectorMap b))"
  then have "Map_get (vectorMap a) k \<noteq> None \<or> Map_get (vectorMap b) k \<noteq> None"
    by (auto simp: Map_get_None_iff)
  then show "Map_get (vectorMap (merge a b)) k = Some (max (entry a k) (entry b k))"
    by (auto simp: Map_get_merge entry_def split: option.splits)
next
  fix k assume "k \<in> set (Map_keys (vectorMap a))"
  then have "Map_get (vectorMap a) k \<noteq> None" by (simp add: Map_get_None_iff)
  then have "Map_get (vectorMap (merge a b)) k \<noteq> None"
    by (cases "Map_get (vectorMap b) k") (auto simp: Map_get_merge)
  then show "k \<in> set (Map_keys (vectorMap (merge a b)))" by (simp add: Map_get_None_iff)
next
  show "uid (merge a b) = uid a" by (simp add: merge_def Let_def)
qed

theorem merge_elementwise_max_witness:
  "Map_get (vectorMap (merge \<lparr>uid = ''a'', vectorMap = [(''a'', 3), (''b'', 4)]\<rparr>
                             \<lparr>uid = ''c'', vectorMap = [(''c'', 2), (''b'', 7)]\<rparr>)) ''b'' = Some 7
   \<and> Map_get (vectorMap (merge \<lparr>uid = ''a'', vectorMap = [(''a'', 3), (''b'', 4)]\<rparr>
                             \<lparr>uid = ''c'', vectorMap = [(''c'', 2), (''b'', 7)]\<rparr>)) ''c'' = Some 2
   \<and> Map_get (vectorMap (merge \<lparr>uid = ''a'', vectorMap = [(''a'', 3), (''b'', 4)]\<rparr>
                             \<lparr>uid = ''c'', vectorMap = [(''c'', 2), (''b'', 7)]\<rparr>)) ''a'' = Some 3"
proof -
  let ?a = "\<lparr>uid = ''a'', vectorMap = [(''a'', 3::nat), (''b'', 4)]\<rparr>"
  let ?b = "\<lparr>uid = ''c'', vectorMap = [(''c'', 2::nat), (''b'', 7)]\<rparr>"
  have m: "Map_get (vectorMap (merge ?a ?b)) k = Some (max (entry ?a k) (entry ?b k))"
    if "k \<in> set (Map_keys (vectorMap ?a)) \<union> set (Map_keys (vectorMap ?b))" for k
    using merge_elementwise_max [of ?a ?b] that by blast
  have ea: "entry ?a ''a'' = 3" "entry ?a ''b'' = 4" "entry ?a ''c'' = 0"
    by (simp_all add: entry_def Map_get_def)
  have eb: "entry ?b ''a'' = 0" "entry ?b ''b'' = 7" "entry ?b ''c'' = 2"
    by (simp_all add: entry_def Map_get_def)
  have "Map_get (vectorMap (merge ?a ?b)) ''b'' = Some 7"
    using m [of "''b''"] ea eb by (simp add: Map_keys_def)
  moreover have "Map_get (vectorMap (merge ?a ?b)) ''c'' = Some 2"
    using m [of "''c''"] ea eb by (simp add: Map_keys_def)
  moreover have "Map_get (vectorMap (merge ?a ?b)) ''a'' = Some 3"
    using m [of "''a''"] ea eb by (simp add: Map_keys_def)
  ultimately show ?thesis by simp
qed

section \<open>isready\<close>





text \<open>
  The receiver without an entry for the sender is outside C1 as amended. There
  \<open>Map.get\<close> answers \<open>undefined\<close>, which is not \<open>null\<close>, so the first branch is taken and
  the strict comparison with a number fails: the transaction is not ready, whatever its
  counter. The \<open>else\<close> branch of the source is never reached.
\<close>

lemma isready_unknown_sender:
  "Map_get (vectorMap R) (uid T) = None \<Longrightarrow> \<not> isready R T"
  by (simp add: isready_def Let_def getUid_def js_get_def)

section \<open>The own entry is never lost\<close>

lemma apply_op_inv:
  "Map_has (vectorMap c) (uid c) \<Longrightarrow>
   uid (apply_op x c) = uid c \<and> Map_has (vectorMap (apply_op x c)) (uid c)"
proof (cases x)
  case Increment
  assume "Map_has (vectorMap c) (uid c)"
  then show ?thesis using Increment
    by (auto simp: increment_def Map_has_def Map_get_def map_of_Map_set split: option.splits)
next
  case (Merge other)
  assume "Map_has (vectorMap c) (uid c)"
  then have "Map_get (vectorMap c) (uid c) \<noteq> None" by (simp add: Map_has_def Map_get_def)
  then have "Map_get (vectorMap (merge c other)) (uid c) \<noteq> None"
    by (cases "Map_get (vectorMap other) (uid c)") (auto simp: Map_get_merge)
  then show ?thesis using Merge by (simp add: Map_has_def Map_get_def merge_def Let_def)
next
  case (SetEntry k v)
  assume "Map_has (vectorMap c) (uid c)"
  then show ?thesis using SetEntry
    by (auto simp: setEntry_def Map_has_def map_of_Map_set)
qed

lemma fold_apply_op_inv:
  "Map_has (vectorMap c) (uid c) \<Longrightarrow>
   uid (fold apply_op ops c) = uid c \<and> Map_has (vectorMap (fold apply_op ops c)) (uid c)"
proof (induction ops arbitrary: c)
  case Nil
  then show ?case by simp
next
  case (Cons x ops)
  from apply_op_inv [OF Cons.prems, of x]
  have u: "uid (apply_op x c) = uid c"
    and h: "Map_has (vectorMap (apply_op x c)) (uid (apply_op x c))"
    by simp_all
  from Cons.IH [OF h] u show ?case by simp
qed

text \<open>
  C9. Whatever list of \<open>increment\<close>, \<open>merge\<close> and \<open>setEntry\<close> calls follows the
  constructor, the clock keeps its uid and its map has an entry for it; so the next
  \<open>increment\<close> finds the entry and stores \<open>oldValue + 1\<close> in its place.
\<close>

theorem own_entry_always_present:
  "uid (run_ops r ops) = r
   \<and> Map_has (vectorMap (run_ops r ops)) r
   \<and> (\<exists>v. Map_get (vectorMap (run_ops r ops)) r = Some v
          \<and> Map_get (vectorMap (increment (run_ops r ops))) r = Some (js_plus_one v))"
proof -
  have init: "Map_has (vectorMap (new_VectorClock r)) (uid (new_VectorClock r))"
    by (simp add: new_VectorClock_def Map_has_def)
  from fold_apply_op_inv [OF init, of ops]
  have u: "uid (run_ops r ops) = r" and h: "Map_has (vectorMap (run_ops r ops)) r"
    by (simp_all add: run_ops_def new_VectorClock_def)
  from h obtain v where v: "Map_get (vectorMap (run_ops r ops)) r = Some v"
    by (auto simp: Map_has_def Map_get_def)
  then have "Map_get (vectorMap (increment (run_ops r ops))) r = Some (js_plus_one v)"
    using u by (simp add: increment_def Map_get_Map_set)
  with u h v show ?thesis by simp
qed

section \<open>The last-writer-wins register\<close>

lemma overwrite_concurrent:
  assumes "sender st = Some s0" "time st = Some t0" "\<not> causally_greater st ts"
  shows "lww_overwrite st ts t \<longleftrightarrow> later_write_spec t (getSender ts) t0 s0"
  using assms by (auto simp: lww_overwrite_def later_write_spec_def null_as_number_def)

lemma state_after_eq:
  "state_after d st ts m =
    (if lww_overwrite st ts (msg_time m)
     then st\<lparr>counter := getSenderCounter ts, sender := Some (getSender ts),
             time := Some (msg_time m), lww_value := d (msg_value m)\<rparr>
     else st)"
  by (simp add: state_after_def receive_def Let_def)

lemma causally_greater_after:
  "causally_greater (st\<lparr>counter := getSenderCounter tsA, sender := Some (getSender tsA),
             time := Some tA, lww_value := v\<rparr>) tsB
   \<longleftrightarrow> (\<exists>e. Map_get (asVectorClock tsB) (getSender tsA) = Some e \<and> e \<ge> getSenderCounter tsA)"
  by (auto simp: causally_greater_def split: option.splits)

text \<open>
  C2, as the code has it. A message that is not causally after the stored write
  overwrites it exactly when its wall-clock time is higher, or the times are equal and its
  sender ID is lexicographically greater. Two concurrent writes of different senders,
  received in either order by a register that is in its initial state or whose stored write
  both writes causally follow, leave the same state, with the value of the write that is
  later in that order.
\<close>

theorem lww_concurrent_writes:
  "(sender st = Some s0 \<and> time st = Some t0 \<and> \<not> causally_greater st ts \<longrightarrow>
      (lww_overwrite st ts (msg_time m) \<longleftrightarrow> later_write_spec (msg_time m) (getSender ts) t0 s0)
      \<and> state_after d st ts m =
          (if later_write_spec (msg_time m) (getSender ts) t0 s0
           then st\<lparr>counter := getSenderCounter ts, sender := Some (getSender ts),
                   time := Some (msg_time m), lww_value := d (msg_value m)\<rparr>
           else st))
   \<and> (causally_greater st tsA \<and> causally_greater st tsB
      \<and> getSender tsA \<noteq> getSender tsB
      \<and> \<not> (\<exists>e. Map_get (asVectorClock tsB) (getSender tsA) = Some e \<and> e \<ge> getSenderCounter tsA)
      \<and> \<not> (\<exists>e. Map_get (asVectorClock tsA) (getSender tsB) = Some e \<and> e \<ge> getSenderCounter tsB)
      \<longrightarrow>
      state_after d (state_after d st tsA mA) tsB mB
        = state_after d (state_after d st tsB mB) tsA mA
      \<and> lww_value (state_after d (state_after d st tsA mA) tsB mB) =
          (if later_write_spec (msg_time mB) (getSender tsB) (msg_time mA) (getSender tsA)
           then d (msg_value mB) else d (msg_value mA)))"
proof (intro conjI impI)
  assume h: "sender st = Some s0 \<and> time st = Some t0 \<and> \<not> causally_greater st ts"
  then show o: "lww_overwrite st ts (msg_time m)
      \<longleftrightarrow> later_write_spec (msg_time m) (getSender ts) t0 s0"
    using overwrite_concurrent by blast
  show "state_after d st ts m =
          (if later_write_spec (msg_time m) (getSender ts) t0 s0
           then st\<lparr>counter := getSenderCounter ts, sender := Some (getSender ts),
                   time := Some (msg_time m), lww_value := d (msg_value m)\<rparr>
           else st)"
    by (simp add: state_after_eq o)
next
  assume h: "causally_greater st tsA \<and> causally_greater st tsB
      \<and> getSender tsA \<noteq> getSender tsB
      \<and> \<not> (\<exists>e. Map_get (asVectorClock tsB) (getSender tsA) = Some e \<and> e \<ge> getSenderCounter tsA)
      \<and> \<not> (\<exists>e. Map_get (asVectorClock tsA) (getSender tsB) = Some e \<and> e \<ge> getSenderCounter tsB)"
  let ?A = "st\<lparr>counter := getSenderCounter tsA, sender := Some (getSender tsA),
                   time := Some (msg_time mA), lww_value := d (msg_value mA)\<rparr>"
  let ?B = "st\<lparr>counter := getSenderCounter tsB, sender := Some (getSender tsB),
                   time := Some (msg_time mB), lww_value := d (msg_value mB)\<rparr>"
  have oA: "lww_overwrite st tsA (msg_time mA)" and oB: "lww_overwrite st tsB (msg_time mB)"
    using h by (simp_all add: lww_overwrite_def)
  have sA: "state_after d st tsA mA = ?A" and sB: "state_after d st tsB mB = ?B"
    using oA oB by (simp_all add: state_after_eq)
  have nA: "\<not> causally_greater ?A tsB" and nB: "\<not> causally_greater ?B tsA"
    using h by (simp_all add: causally_greater_after)
  have AB: "lww_overwrite ?A tsB (msg_time mB)
              \<longleftrightarrow> later_write_spec (msg_time mB) (getSender tsB) (msg_time mA) (getSender tsA)"
    by (rule overwrite_concurrent [OF _ _ nA]) simp_all
  have BA: "lww_overwrite ?B tsA (msg_time mA)
              \<longleftrightarrow> later_write_spec (msg_time mA) (getSender tsA) (msg_time mB) (getSender tsB)"
    by (rule overwrite_concurrent [OF _ _ nB]) simp_all
  have excl: "later_write_spec (msg_time mA) (getSender tsA) (msg_time mB) (getSender tsB)
              \<longleftrightarrow> \<not> later_write_spec (msg_time mB) (getSender tsB) (msg_time mA) (getSender tsA)"
    using h by (auto simp: later_write_spec_def)
  show "state_after d (state_after d st tsA mA) tsB mB
      = state_after d (state_after d st tsB mB) tsA mA"
    unfolding sA sB by (simp add: state_after_eq [of d ?A] state_after_eq [of d ?B] AB BA excl)
  show "lww_value (state_after d (state_after d st tsA mA) tsB mB) =
          (if later_write_spec (msg_time mB) (getSender tsB) (msg_time mA) (getSender tsA)
           then d (msg_value mB) else d (msg_value mA))"
    unfolding sA by (simp add: state_after_eq [of d ?A] AB)
qed

theorem lww_concurrent_writes_witness:
  "lww_overwrite
      \<lparr>initialValue = ''init'', lww_value = ''A'', sender = Some ''alice'', counter = 1,
       time = Some 100\<rparr>
      \<lparr>getSender = ''bob'', getSenderCounter = 1, asVectorClock = [(''bob'', 1)],
       isLocal = False\<rparr> 100
   \<and> lww_value (state_after id
        (state_after id (new_LwwRegisterBase ''init'')
           \<lparr>getSender = ''alice'', getSenderCounter = 1, asVectorClock = [(''alice'', 1)],
            isLocal = False\<rparr> \<lparr>msg_value = ''A'', msg_time = 100\<rparr>)
        \<lparr>getSender = ''bob'', getSenderCounter = 1, asVectorClock = [(''bob'', 1)],
         isLocal = False\<rparr> \<lparr>msg_value = ''B'', msg_time = 100\<rparr>) = ''B''
   \<and> lww_value (state_after id
        (state_after id (new_LwwRegisterBase ''init'')
           \<lparr>getSender = ''bob'', getSenderCounter = 1, asVectorClock = [(''bob'', 1)],
            isLocal = False\<rparr> \<lparr>msg_value = ''B'', msg_time = 100\<rparr>)
        \<lparr>getSender = ''alice'', getSenderCounter = 1, asVectorClock = [(''alice'', 1)],
         isLocal = False\<rparr> \<lparr>msg_value = ''A'', msg_time = 100\<rparr>) = ''B''"
proof -
  let ?st = "\<lparr>initialValue = ''init'', lww_value = ''A'', sender = Some ''alice'',
              counter = 1, time = Some 100\<rparr>"
  let ?ini = "new_LwwRegisterBase ''init''"
  let ?tA = "\<lparr>getSender = ''alice'', getSenderCounter = 1, asVectorClock = [(''alice'', 1)],
              isLocal = False\<rparr>"
  let ?tB = "\<lparr>getSender = ''bob'', getSenderCounter = 1, asVectorClock = [(''bob'', 1)],
              isLocal = False\<rparr>"
  let ?mA = "\<lparr>msg_value = ''A'', msg_time = 100\<rparr>"
  let ?mB = "\<lparr>msg_value = ''B'', msg_time = 100\<rparr>"
  have h1: "sender ?st = Some ''alice'' \<and> time ?st = Some 100 \<and> \<not> causally_greater ?st ?tB"
    by (simp add: causally_greater_def Map_get_def)
  have l: "later_write_spec 100 ''bob'' 100 ''alice''"
    by (simp add: later_write_spec_def)
  have h2: "causally_greater ?ini ?tA \<and> causally_greater ?ini ?tB
      \<and> getSender ?tA \<noteq> getSender ?tB
      \<and> \<not> (\<exists>e. Map_get (asVectorClock ?tB) (getSender ?tA) = Some e \<and> e \<ge> getSenderCounter ?tA)
      \<and> \<not> (\<exists>e. Map_get (asVectorClock ?tA) (getSender ?tB) = Some e \<and> e \<ge> getSenderCounter ?tB)"
    by (simp add: causally_greater_def Map_get_def new_LwwRegisterBase_def new_LwwState_def)
  note t1 = lww_concurrent_writes [where st = ?st and ?s0.0 = "''alice''" and ?t0.0 = 100
      and ts = ?tB and m = ?mB]
  note t2 = lww_concurrent_writes [where st = ?ini and tsA = ?tA and tsB = ?tB and mA = ?mA
      and mB = ?mB and d = id]
  from t1 h1 l have 1: "lww_overwrite ?st ?tB 100" by simp
  from t2 h2 have 2: "state_after id (state_after id ?ini ?tA ?mA) ?tB ?mB
        = state_after id (state_after id ?ini ?tB ?mB) ?tA ?mA"
    and 3: "lww_value (state_after id (state_after id ?ini ?tA ?mA) ?tB ?mB) =
          (if later_write_spec (msg_time ?mB) (getSender ?tB) (msg_time ?mA) (getSender ?tA)
           then id (msg_value ?mB) else id (msg_value ?mA))"
    by blast+
  from 3 l have 4: "lww_value (state_after id (state_after id ?ini ?tA ?mA) ?tB ?mB) = ''B''"
    by simp
  from 1 4 2 show ?thesis by simp
qed

text \<open>
  C2, as the claim states it, fails when the register already holds a write that only one
  of the two follows. Carol has written \<open>S\<close> at time 10. Alice has seen it and writes \<open>A\<close>
  at time 1 by her clock; Bob has seen nothing and writes \<open>B\<close> at time 5. \<open>A\<close> and \<open>B\<close>
  are concurrent. A replica that receives \<open>S\<close>, \<open>A\<close>, \<open>B\<close> ends with \<open>B\<close>: \<open>A\<close> replaces
  \<open>S\<close> as its causal successor, and \<open>B\<close> has the higher time than \<open>A\<close>. A replica that
  receives \<open>S\<close>, \<open>B\<close>, \<open>A\<close> ends with \<open>A\<close>: \<open>B\<close> loses against \<open>S\<close> on time, and \<open>A\<close>
  replaces \<open>S\<close>. Both have received both writes and hold different values.
\<close>

theorem lww_prior_write_counterexample:
  "Map_get (asVectorClock
      \<lparr>getSender = ''alice'', getSenderCounter = 1,
       asVectorClock = [(''carol'', 1), (''alice'', 1)], isLocal = False\<rparr>) ''bob'' = None
   \<and> Map_get (asVectorClock
      \<lparr>getSender = ''bob'', getSenderCounter = 1, asVectorClock = [(''bob'', 1)],
       isLocal = False\<rparr>) ''alice'' = None
   \<and> lww_value (state_after id (state_after id (state_after id (new_LwwRegisterBase ''init'')
        \<lparr>getSender = ''carol'', getSenderCounter = 1, asVectorClock = [(''carol'', 1)],
         isLocal = False\<rparr> \<lparr>msg_value = ''S'', msg_time = 10\<rparr>)
        \<lparr>getSender = ''alice'', getSenderCounter = 1,
         asVectorClock = [(''carol'', 1), (''alice'', 1)], isLocal = False\<rparr>
        \<lparr>msg_value = ''A'', msg_time = 1\<rparr>)
        \<lparr>getSender = ''bob'', getSenderCounter = 1, asVectorClock = [(''bob'', 1)],
         isLocal = False\<rparr> \<lparr>msg_value = ''B'', msg_time = 5\<rparr>) = ''B''
   \<and> lww_value (state_after id (state_after id (state_after id (new_LwwRegisterBase ''init'')
        \<lparr>getSender = ''carol'', getSenderCounter = 1, asVectorClock = [(''carol'', 1)],
         isLocal = False\<rparr> \<lparr>msg_value = ''S'', msg_time = 10\<rparr>)
        \<lparr>getSender = ''bob'', getSenderCounter = 1, asVectorClock = [(''bob'', 1)],
         isLocal = False\<rparr> \<lparr>msg_value = ''B'', msg_time = 5\<rparr>)
        \<lparr>getSender = ''alice'', getSenderCounter = 1,
         asVectorClock = [(''carol'', 1), (''alice'', 1)], isLocal = False\<rparr>
        \<lparr>msg_value = ''A'', msg_time = 1\<rparr>) = ''A''"
  by (simp add: state_after_eq lww_overwrite_def causally_greater_def null_as_number_def
      Map_get_def new_LwwRegisterBase_def new_LwwState_def)

section \<open>The set of dynamically created children\<close>

text \<open>
  C5. A message whose path ends in a name that the children map does not hold: with a
  local timestamp \<open>receiveInternal\<close> throws, with a remote one it returns and leaves the
  set and the path as they were.
\<close>

theorem receiveInternal_deleted_child:
  assumes "targetPath \<noteq> []" and "Map_get (children crdtSet) (last targetPath) = None"
  shows "receiveInternal env crdtSet targetPath timestamp message =
           (if isLocal timestamp
            then Inl (Operation_performed_on_deleted_child (last targetPath))
            else Inr (crdtSet, targetPath))"
  using assms by (simp add: receiveInternal_def)

theorem receiveInternal_deleted_child_witness:
  "receiveInternal
     \<lparr>valueCrdtConstructor = (\<lambda>s. s), Crdt_init = (\<lambda>name c. c),
      Crdt_receive = (\<lambda>c p t m. Inr (c, p)), YjsCrdtSetMessage_decode = Some,
      nameSerializer_serialize = (\<lambda>(s, n). utf8_write s @ [word_of_int n]),
      arrayAsString = utf8_read\<rparr>
     \<lparr>children = [(''kept'', ''alice'')], childBeingAdded = None, ourCreatedCrdt = None,
      emitted = []\<rparr>
     [''gone'']
     \<lparr>getSender = ''bob'', getSenderCounter = 3, asVectorClock = [], isLocal = True\<rparr>
     Unset
   = Inl (Operation_performed_on_deleted_child ''gone'')
   \<and> receiveInternal
     \<lparr>valueCrdtConstructor = (\<lambda>s. s), Crdt_init = (\<lambda>name c. c),
      Crdt_receive = (\<lambda>c p t m. Inr (c, p)), YjsCrdtSetMessage_decode = Some,
      nameSerializer_serialize = (\<lambda>(s, n). utf8_write s @ [word_of_int n]),
      arrayAsString = utf8_read\<rparr>
     \<lparr>children = [(''kept'', ''alice'')], childBeingAdded = None, ourCreatedCrdt = None,
      emitted = []\<rparr>
     [''gone'']
     \<lparr>getSender = ''bob'', getSenderCounter = 3, asVectorClock = [], isLocal = False\<rparr>
     Unset
   = Inr (\<lparr>children = [(''kept'', ''alice'')], childBeingAdded = None, ourCreatedCrdt = None,
           emitted = []\<rparr>, [''gone''])"
proof -
  let ?set = "\<lparr>children = [(''kept'', ''alice'')], childBeingAdded = None,
                ourCreatedCrdt = None, emitted = []\<rparr>"
  have p: "[''gone''] \<noteq> []" by simp
  have a: "Map_get (children ?set) (last [''gone'']) = None" by (simp add: Map_get_def)
  show ?thesis
    by (simp add: receiveInternal_deleted_child [OF p a])
qed

lemma Map_keys_Map_set_new:
  "\<not> Map_has m k \<Longrightarrow> Map_keys (Map_set k v m) = Map_keys m @ [k]"
  by (induction m) (auto simp: Map_keys_def Map_has_def)

text \<open>
  C6. A \<open>create\<close> message names the new child \<open>arrayAsString\<close> of the serialized pair of
  the timestamp's sender and the message's create counter, whatever the receiving set
  holds. So two replicas that apply the same message, each with no error, add one child
  each, under the same name.
\<close>

theorem create_name_deterministic:
  assumes "YjsCrdtSetMessage_decode env message = Some (Create n)"
    and "getSender ts1 = getSender ts2"
    and "receiveInternal env r1 [] ts1 message = Inr (r1', p1)"
    and "receiveInternal env r2 [] ts2 message = Inr (r2', p2)"
  shows "Map_keys (children r1')
           = Map_keys (children r1)
               @ [arrayAsString env (nameSerializer_serialize env (getSender ts1, n))]
       \<and> Map_keys (children r2')
           = Map_keys (children r2)
               @ [arrayAsString env (nameSerializer_serialize env (getSender ts1, n))]"
  using assms
  by (auto simp: receiveInternal_def Let_def Map_keys_Map_set_new split: if_splits)

theorem create_name_deterministic_witness:
  "Map_keys (children (fst (projr (receiveInternal
     \<lparr>valueCrdtConstructor = (\<lambda>s. s), Crdt_init = (\<lambda>name c. c),
      Crdt_receive = (\<lambda>c p t m. Inr (c, p)), YjsCrdtSetMessage_decode = Some,
      nameSerializer_serialize = (\<lambda>(s, n). utf8_write s @ [word_of_int n]),
      arrayAsString = utf8_read\<rparr>
     \<lparr>children = [], childBeingAdded = None, ourCreatedCrdt = None, emitted = []\<rparr>
     []
     \<lparr>getSender = ''bob'', getSenderCounter = 3, asVectorClock = [], isLocal = True\<rparr>
     (Create 65))))) = [''bobA'']
   \<and> Map_keys (children (fst (projr (receiveInternal
     \<lparr>valueCrdtConstructor = (\<lambda>s. s), Crdt_init = (\<lambda>name c. c),
      Crdt_receive = (\<lambda>c p t m. Inr (c, p)), YjsCrdtSetMessage_decode = Some,
      nameSerializer_serialize = (\<lambda>(s, n). utf8_write s @ [word_of_int n]),
      arrayAsString = utf8_read\<rparr>
     \<lparr>children = [(''kept'', ''alice'')], childBeingAdded = None, ourCreatedCrdt = None,
      emitted = []\<rparr>
     []
     \<lparr>getSender = ''bob'', getSenderCounter = 3, asVectorClock = [], isLocal = False\<rparr>
     (Create 65))))) = [''kept'', ''bobA'']"
proof -
  let ?env = "\<lparr>valueCrdtConstructor = (\<lambda>s. s), Crdt_init = (\<lambda>name c. c),
      Crdt_receive = (\<lambda>c p t m. Inr (c, p)), YjsCrdtSetMessage_decode = Some,
      nameSerializer_serialize = (\<lambda>(s, n). utf8_write s @ [word_of_int n]),
      arrayAsString = utf8_read\<rparr>
      :: (string, YjsCrdtSetMessage) YjsCrdtSet_env"
  let ?r1 = "\<lparr>children = [], childBeingAdded = None, ourCreatedCrdt = None, emitted = []\<rparr>
      :: string YjsCrdtSet"
  let ?r2 = "\<lparr>children = [(''kept'', ''alice'')], childBeingAdded = None,
      ourCreatedCrdt = None, emitted = []\<rparr> :: string YjsCrdtSet"
  let ?t1 = "\<lparr>getSender = ''bob'', getSenderCounter = 3, asVectorClock = [], isLocal = True\<rparr>"
  let ?t2 = "\<lparr>getSender = ''bob'', getSenderCounter = 3, asVectorClock = [], isLocal = False\<rparr>"
  have name: "utf8_read (utf8_write ''bob'' @ [65]) = ''bobA''"
    by code_simp
  have d: "YjsCrdtSetMessage_decode ?env (Create 65) = Some (Create 65)" by simp
  have s: "getSender ?t1 = getSender ?t2" by simp
  obtain r1' p1 where 1: "receiveInternal ?env ?r1 [] ?t1 (Create 65) = Inr (r1', p1)"
    by (simp add: receiveInternal_def Let_def Map_has_def)
  obtain r2' p2 where 2: "receiveInternal ?env ?r2 [] ?t2 (Create 65) = Inr (r2', p2)"
    by (simp add: receiveInternal_def Let_def Map_has_def name)
  from create_name_deterministic [OF d s 1 2]
  have "Map_keys (children r1') = [''bobA'']" "Map_keys (children r2') = [''kept'', ''bobA'']"
    by (simp_all add: name Map_keys_def)
  with 1 2 show ?thesis by simp
qed

section \<open>AbstractDoc.idOf\<close>

text \<open>
  C8. For a Collab of another runtime \<open>idOf\<close> throws and answers no \<open>CollabID\<close>; for a
  Collab of the document's own runtime it answers what the runtime's \<open>idOf\<close> answers,
  adding no error of its own.
\<close>

theorem idOf_checks_runtime:
  "(collab_runtime collab \<noteq> runtime_ref (runtime doc) \<longrightarrow>
      idOf doc collab = Inl idOf_called_with_Collab_from_different_AbstractDoc)
   \<and> (collab_runtime collab = runtime_ref (runtime doc) \<longrightarrow>
      idOf doc collab = runtime_idOf (runtime doc) collab)
   \<and> (collab_runtime collab = runtime_ref (runtime doc)
        \<and> runtime_idOf (runtime doc) collab = Inr ident \<longrightarrow>
      idOf doc collab = Inr ident)"
  by (simp add: idOf_def)

theorem idOf_checks_runtime_witness:
  "idOf \<lparr>runtime = \<lparr>runtime_ref = 1,
                    runtime_idOf = (\<lambda>c. Inr \<lparr>namePath = Some [collab_name c]\<rparr>)\<rparr>\<rparr>
        \<lparr>collab_name = ''text'', collab_runtime = 2\<rparr>
     = Inl idOf_called_with_Collab_from_different_AbstractDoc
   \<and> idOf \<lparr>runtime = \<lparr>runtime_ref = 1,
                    runtime_idOf = (\<lambda>c. Inr \<lparr>namePath = Some [collab_name c]\<rparr>)\<rparr>\<rparr>
        \<lparr>collab_name = ''text'', collab_runtime = 1\<rparr>
     = Inr \<lparr>namePath = Some [''text'']\<rparr>"
proof -
  let ?doc = "\<lparr>runtime = \<lparr>runtime_ref = 1,
                    runtime_idOf = (\<lambda>c. Inr \<lparr>namePath = Some [collab_name c]\<rparr>)\<rparr>\<rparr>"
  let ?other = "\<lparr>collab_name = ''text'', collab_runtime = 2\<rparr>"
  let ?own = "\<lparr>collab_name = ''text'', collab_runtime = 1\<rparr>"
  have a: "collab_runtime ?other \<noteq> runtime_ref (runtime ?doc)" by simp
  have b: "collab_runtime ?own = runtime_ref (runtime ?doc)
      \<and> runtime_idOf (runtime ?doc) ?own = Inr \<lparr>namePath = Some [''text'']\<rparr>" by simp
  from idOf_checks_runtime [of ?other ?doc] a
  have 1: "idOf ?doc ?other = Inl idOf_called_with_Collab_from_different_AbstractDoc"
    by blast
  from idOf_checks_runtime [of ?own ?doc "\<lparr>namePath = Some [''text'']\<rparr>"] b
  have 2: "idOf ?doc ?own = Inr \<lparr>namePath = Some [''text'']\<rparr>"
    by blast
  from 1 2 show ?thesis by simp
qed

section \<open>Varints and zig-zag coding\<close>

lemma unat_byte: "n < 256 \<Longrightarrow> unat (of_nat n :: byte) = n"
  by (simp add: unat_of_nat take_bit_nat_eq_self)

lemma read_varint_varint: "read_varint (varint n @ rest) = Some (n, rest)"
proof (induction n rule: varint.induct)
  case (1 n)
  show ?case
  proof (cases "n < 128")
    case True
    then show ?thesis
      by (subst varint.simps) (simp add: unat_byte)
  next
    case False
    have m: "128 + n mod 128 < 256" by simp
    have u: "unat (of_nat (128 + n mod 128) :: byte) = 128 + n mod 128"
      using m by (rule unat_byte)
    have v: "varint n = of_nat (128 + n mod 128) # varint (n div 128)"
      using False by (subst varint.simps) simp
    show ?thesis
      unfolding v using False 1 u by (simp del: of_nat_add)
  qed
qed

lemma signed_drop_bit_63:
  "signed_drop_bit 63 (w :: 64 word) = (if bit w 63 then - 1 else 0)"
  by (rule bit_word_eqI) (auto simp: bit_signed_drop_bit_iff Suc_le_eq)

lemma neg_and_1: "- ((x :: 64 word) AND 1) = (if bit x 0 then - 1 else 0)"
  by (simp add: and_one_eq bit_0 odd_iff_mod_2_eq_one)

lemma bit_push_bit_1:
  "bit (push_bit 1 (w :: 64 word)) n \<longleftrightarrow> 0 < n \<and> n < 64 \<and> bit w (n - 1)"
  by (auto simp only: bit_push_bit_iff possible_bit_word len_bit0 len_num1 One_nat_def Suc_le_eq)

lemma drop_push_clear:
  "\<not> bit w 63 \<Longrightarrow> drop_bit 1 (push_bit 1 (w :: 64 word)) = w"
proof (rule bit_word_eqI)
  fix n assume c: "\<not> bit w 63" and n: "n < LENGTH(64)"
  have "bit (drop_bit 1 (push_bit 1 w)) n \<longleftrightarrow> bit (push_bit 1 w) (n + 1)"
    by (simp only: bit_drop_bit_eq comp_apply add.commute)
  also have "\<dots> \<longleftrightarrow> n + 1 < 64 \<and> bit w n"
    by (simp only: bit_push_bit_1) simp
  also have "\<dots> \<longleftrightarrow> bit w n"
    using c n by (cases "n = 63") auto
  finally show "bit (drop_bit 1 (push_bit 1 w)) n \<longleftrightarrow> bit w n" .
qed

lemma drop_push_set:
  "bit w 63 \<Longrightarrow> NOT (drop_bit 1 (NOT (push_bit 1 (w :: 64 word)))) = w"
proof (rule bit_word_eqI)
  fix n assume c: "bit w 63" and n: "n < LENGTH(64)"
  have "bit (NOT (drop_bit 1 (NOT (push_bit 1 w)))) n
      \<longleftrightarrow> \<not> bit (drop_bit 1 (NOT (push_bit 1 w))) n"
    using n by (simp only: bit_not_iff possible_bit_word) simp
  also have "\<dots> \<longleftrightarrow> \<not> bit (NOT (push_bit 1 w)) (n + 1)"
    by (simp only: bit_drop_bit_eq comp_apply add.commute)
  also have "\<dots> \<longleftrightarrow> \<not> (n + 1 < 64 \<and> \<not> bit (push_bit 1 w) (n + 1))"
    by (simp only: bit_not_iff possible_bit_word) simp
  also have "\<dots> \<longleftrightarrow> \<not> (n + 1 < 64 \<and> \<not> bit w n)"
    by (simp only: bit_push_bit_1) auto
  also have "\<dots> \<longleftrightarrow> bit w n"
    using c n by (cases "n = 63") auto
  finally show "bit (NOT (drop_bit 1 (NOT (push_bit 1 w)))) n \<longleftrightarrow> bit w n" .
qed

lemma zzDecode_zzEncode: "zzDecode (zzEncode w) = w"
proof (cases "bit w 63")
  case False
  have e: "zzEncode w = push_bit 1 w" using False by (simp add: zzEncode_def signed_drop_bit_63)
  have b0: "\<not> bit (push_bit 1 w) 0" by (simp only: bit_push_bit_1) simp
  show ?thesis
    unfolding zzDecode_def e neg_and_1 using b0 drop_push_clear [OF False] by simp
next
  case True
  have e: "zzEncode w = NOT (push_bit 1 w)"
    using True by (simp only: zzEncode_def signed_drop_bit_63 if_True bit.xor_one_right)
  have b0: "bit (NOT (push_bit 1 w)) 0"
    by (simp only: bit_not_iff bit_push_bit_1 possible_bit_word) simp
  show ?thesis
    unfolding zzDecode_def e neg_and_1 using b0 drop_push_set [OF True]
    by (simp only: if_True bit.xor_one_right)
qed

section \<open>The default serializer on safe integers\<close>

lemma varint_16: "varint 16 = [16]"
  by (subst varint.simps) simp

lemma sint_safe:
  assumes "\<bar>n\<bar> \<le> 2 ^ 53 - 1"
  shows "sint (word_of_int n :: 64 word) = n"
proof -
  have "- (2 ^ 63) \<le> n" "n < 2 ^ 63" using assms by auto
  then show ?thesis by (simp add: sint_sbintrunc' signed_take_bit_int_eq_self)
qed

lemma decode_loop_Nil:
  "DefaultSerializerMessage_decode_loop ieee useLong [] message = Inr message"
  by (subst DefaultSerializerMessage_decode_loop.simps) simp

lemma decode_intValue:
  "DefaultSerializerMessage_decode ieee useLong (write_tag 2 0 @ write_sint64 v)
     = Inr (IntValue (if useLong then AsLong (LongBits_from v)
                      else AsNumber (toNumber ieee (LongBits_from v))))"
proof -
  have t: "write_tag 2 0 = [16]" by (simp add: write_tag_def varint_16)
  have r: "read_sint64 ieee useLong (write_sint64 v) =
      Some (if useLong then AsLong (LongBits_from v)
            else AsNumber (toNumber ieee (LongBits_from v)), [])"
    using read_varint_varint [of "unat (zzEncode (LongBits_from v))" "[]"]
    by (simp add: read_sint64_def write_sint64_def zzDecode_zzEncode)
  show ?thesis
    unfolding DefaultSerializerMessage_decode_def t
    by (subst DefaultSerializerMessage_decode_loop.simps)
      (simp add: DefaultSerializerMessage_field_def got_def r decode_loop_Nil)
qed

text \<open>
  C10. A safe integer is serialized without error, as the \<open>sint64\<close> field, and
  \<open>deserialize\<close> of those bytes answers the same number, with or without the Long
  library and whatever the rounding of larger integers is.
\<close>

theorem safe_integer_roundtrip:
  assumes "isSafeInteger (Integer n)"
  shows "serialize ieee (VNumber (Integer n)) = Inr (write_tag 2 0 @ write_sint64 (AsNumber n))
       \<and> deserialize ieee useLong (write_tag 2 0 @ write_sint64 (AsNumber n))
           = Inr (VNumber (Integer n))"
proof -
  from assms have s: "\<bar>n\<bar> \<le> 2 ^ 53 - 1" by (simp add: isSafeInteger_def)
  have ser: "serialize ieee (VNumber (Integer n))
      = Inr (write_tag 2 0 @ write_sint64 (AsNumber n))"
    using assms by (simp add: serialize_def DefaultSerializerMessage_encode_def)
  have tn: "toNumber ieee (word_of_int n) = n"
    using s sint_safe [OF s] by (simp add: toNumber_def Let_def)
  have "deserialize ieee useLong (write_tag 2 0 @ write_sint64 (AsNumber n))
      = Inr (VNumber (Integer n))"
    by (simp add: deserialize_def decode_intValue int64AsNumber_def LongBits_from_def tn)
  with ser show ?thesis by simp
qed

theorem safe_integer_roundtrip_witness:
  "isSafeInteger (Integer (- 9007199254740991))
   \<and> (case serialize \<lparr>writeDoubleLE = (\<lambda>d. replicate 8 0), readDoubleLE = (\<lambda>b. Double 0),
                       nearest = (\<lambda>v. 0)\<rparr> (VNumber (Integer (- 9007199254740991))) of
        Inl e \<Rightarrow> False
      | Inr bytes \<Rightarrow>
          deserialize \<lparr>writeDoubleLE = (\<lambda>d. replicate 8 0), readDoubleLE = (\<lambda>b. Double 0),
                       nearest = (\<lambda>v. 0)\<rparr> True bytes
            = Inr (VNumber (Integer (- 9007199254740991))))"
proof -
  have h: "isSafeInteger (Integer (- 9007199254740991))"
    by (simp add: isSafeInteger_def)
  from safe_integer_roundtrip [OF h] h show ?thesis by simp
qed

lemma intValue_minus_three_bytes: "write_tag 2 0 @ write_sint64 (AsNumber (- 3)) = [16, 5]"
  by code_simp

lemma intValue_300_bytes: "write_tag 2 0 @ write_sint64 (AsNumber 300) = [16, 216, 4]"
  by code_simp

section \<open>The CollabID serializer\<close>

lemma utf8_roundtrip: "utf8_read (utf8_write s) = s"
  by (induction s) (simp_all add: utf8_read_def utf8_write_def unat_byte)

lemma length_utf8_write: "length (utf8_write s) = length s"
  by (simp add: utf8_write_def)

lemma read_string_write_string:
  "length s < 2 ^ 32 \<Longrightarrow> read_string (write_string s @ rest) = Some (s, rest)"
  by (simp add: read_string_def write_string_def read_bytes_def write_bytes_def read_varint_varint
      utf8_roundtrip length_utf8_write)

lemma varint_10: "varint 10 = [10]"
  by (subst varint.simps) simp

lemma CollabIDMessage_decode_loop_encode:
  assumes "\<forall>s \<in> set ss. length s < 2 ^ 32"
  shows "CollabIDMessage_decode_loop
           (concat (map (\<lambda>s. write_tag 1 2 @ write_string s) ss)) message
         = Inr (message\<lparr>msg_namePath := msg_namePath message @ ss\<rparr>)"
  using assms
proof (induction ss arbitrary: message)
  case Nil
  show ?case by (subst CollabIDMessage_decode_loop.simps) simp
next
  case (Cons s ss)
  let ?rest = "concat (map (\<lambda>s. write_tag 1 2 @ write_string s) ss)"
  have t: "write_tag 1 2 = [10]" by (simp add: write_tag_def varint_10)
  have r: "read_string (write_string s @ ?rest) = Some (s, ?rest)"
    using Cons.prems by (simp add: read_string_write_string)
  have ih: "CollabIDMessage_decode_loop ?rest
         (message\<lparr>msg_namePath := msg_namePath message @ [s]\<rparr>)
       = Inr (message\<lparr>msg_namePath := msg_namePath message @ s # ss\<rparr>)"
    using Cons.IH [of "message\<lparr>msg_namePath := msg_namePath message @ [s]\<rparr>"] Cons.prems
    by simp
  have c: "concat (map (\<lambda>s. write_tag 1 2 @ write_string s) (s # ss))
             = 10 # (write_string s @ ?rest)"
    by (simp only: list.map concat.simps t append.simps append_assoc)
  have f: "CollabIDMessage_field 1 2 (write_string s @ ?rest) message
        = Inr (message\<lparr>msg_namePath := msg_namePath message @ [s]\<rparr>, ?rest)"
    using r by (simp add: CollabIDMessage_field_def)
  have "CollabIDMessage_decode_loop (10 # (write_string s @ ?rest)) message
      = (case CollabIDMessage_field 1 2 (write_string s @ ?rest) message of
           Inl e \<Rightarrow> Inl e
         | Inr (message', bs2) \<Rightarrow> CollabIDMessage_decode_loop bs2 message')"
    by (subst CollabIDMessage_decode_loop.simps) simp
  also have "\<dots> = CollabIDMessage_decode_loop ?rest
                     (message\<lparr>msg_namePath := msg_namePath message @ [s]\<rparr>)"
    using f by simp
  also have "\<dots> = Inr (message\<lparr>msg_namePath := msg_namePath message @ s # ss\<rparr>)"
    by (rule ih)
  finally show ?case unfolding c .
qed

lemma CollabIDMessage_decode_encode:
  assumes "\<forall>s \<in> set path. length s < 2 ^ 32"
  shows "CollabIDMessage_decode
           (CollabIDMessage_encode (CollabIDMessage_create [(''namePath'', Some path)]))
         = Inr \<lparr>msg_namePath = path, expando = []\<rparr>"
  using CollabIDMessage_decode_loop_encode [OF assms, of "\<lparr>msg_namePath = [], expando = []\<rparr>"]
  by (simp add: CollabIDMessage_decode_def CollabIDMessage_encode_def CollabIDMessage_create_def
      CollabIDMessage_put_def)

text \<open>
  C7. A \<open>CollabID\<close> that is serialized and deserialized comes back with the same
  \<open>namePath\<close>. The length that precedes a string on the wire has 32 bits, so the labels
  are taken shorter than \<open>2^32\<close> bytes, as is every string that a JavaScript engine
  holds.
\<close>

theorem CollabID_roundtrip:
  assumes "\<forall>s \<in> set path. length s < 2 ^ 32"
  shows "CollabIDSerializer_deserialize (CollabIDSerializer_serialize \<lparr>namePath = Some path\<rparr>)
           = Inr \<lparr>namePath = Some path\<rparr>"
  using CollabIDMessage_decode_encode [OF assms]
  by (simp add: CollabIDSerializer_deserialize_def CollabIDSerializer_serialize_def
      CollabIDMessage_get_def)

theorem CollabID_roundtrip_witness:
  "CollabIDSerializer_deserialize
     (CollabIDSerializer_serialize \<lparr>namePath = Some [''doc'', ''text'', []]\<rparr>)
   = Inr \<lparr>namePath = Some [''doc'', ''text'', []]\<rparr>"
proof -
  have h: "\<forall>s \<in> set [''doc'', ''text'', []]. length s < 2 ^ 32" by simp
  from CollabID_roundtrip [OF h] show ?thesis .
qed

lemma CollabID_bytes:
  "CollabIDSerializer_serialize \<lparr>namePath = Some [''a'', ''bc'']\<rparr>
     = [10, 1, 97, 10, 2, 98, 99]"
  by code_simp

end
